theory Spec2Isabelle
  imports Complex_Main
begin

section \<open>Configuration constants of \<^verbatim>\<open>fretboard_trainer.py\<close>\<close>

text \<open>
  Python floats are modelled as the real numbers they denote and Python's unbounded
  integers as \<open>int\<close>. The literal \<^verbatim>\<open>0.02\<close> is the rational \<open>2/100\<close>, \<^verbatim>\<open>0.4\<close> is \<open>4/10\<close>.
  One effect of binary64 arithmetic changes what a function does rather than how
  precisely it computes, and is modelled: the underflow to zero of the quotient in
  \<^verbatim>\<open>freq_to_midi\<close>.
\<close>

definition SAMPLE_RATE :: int where
  "SAMPLE_RATE = 44100"

definition BUFFER_SIZE :: int where
  "BUFFER_SIZE = 1024"

definition AMPLITUDE_THRESHOLD :: real where
  "AMPLITUDE_THRESHOLD = 2 / 100"

definition MIN_F0 :: real where
  "MIN_F0 = 70"

definition MAX_F0 :: real where
  "MAX_F0 = 1000"

definition EVENT_DEBOUNCE_SECONDS :: real where
  "EVENT_DEBOUNCE_SECONDS = 4 / 10"

definition NOTE_NAMES :: "string list" where
  "NOTE_NAMES = [''C'', ''C#'', ''D'', ''D#'', ''E'', ''F'',
                 ''F#'', ''G'', ''G#'', ''A'', ''A#'', ''B'']"

text \<open>
  The tuning dictionary, as an association list in insertion order: a Python dict
  iterates its items in the order they were written.
\<close>

definition STRING_TUNING_MIDI :: "(int \<times> int) list" where
  "STRING_TUNING_MIDI = [(6, 40), (5, 45), (4, 50), (3, 55), (2, 59), (1, 64)]"

definition MAX_FRET :: int where
  "MAX_FRET = 12"

text \<open>
  Exceptions the modelled library calls can raise, as values: \<^verbatim>\<open>random.choice\<close> on an
  empty sequence, \<^verbatim>\<open>np.max\<close> and \<^verbatim>\<open>np.argmax\<close> on an empty array.
\<close>

datatype exn = IndexError | ValueError

section \<open>Note helpers\<close>

text \<open>Decimal rendering of an integer, as the f-string \<^verbatim>\<open>f"{octave}"\<close> produces it.\<close>

fun str_nat :: "nat \<Rightarrow> string" where
  "str_nat n =
     (if n < 10 then [''0123456789'' ! n]
      else str_nat (n div 10) @ [''0123456789'' ! (n mod 10)])"

declare str_nat.simps [simp del]

definition str_int :: "int \<Rightarrow> string" where
  "str_int i = (if i < 0 then CHR ''-'' # str_nat (nat (- i)) else str_nat (nat i))"

text \<open>
  Python's \<^verbatim>\<open>%\<close> and \<^verbatim>\<open>//\<close> round towards minus infinity, as \<open>mod\<close> and \<open>div\<close> on
  \<open>int\<close> do, so \<open>midi_num mod 12\<close> always indexes \<open>NOTE_NAMES\<close> in range.
\<close>

definition midi_to_note_name :: "int \<Rightarrow> string" where
  "midi_to_note_name midi_num =
     (let name = NOTE_NAMES ! nat (midi_num mod 12);
          octave = (midi_num div 12) - 1
      in name @ str_int octave)"

definition pitch_class_name :: "int \<Rightarrow> string" where
  "pitch_class_name midi_num = NOTE_NAMES ! nat (midi_num mod 12)"

section \<open>Fretboard model\<close>

text \<open>A fretboard entry is the tuple \<^verbatim>\<open>(s, fret, midi, name)\<close> of the source.\<close>

type_synonym fret_entry = "int \<times> int \<times> int \<times> string"

definition e_string :: "fret_entry \<Rightarrow> int" where
  "e_string e = fst e"

definition e_fret :: "fret_entry \<Rightarrow> int" where
  "e_fret e = fst (snd e)"

definition e_midi :: "fret_entry \<Rightarrow> int" where
  "e_midi e = fst (snd (snd e))"

definition e_name :: "fret_entry \<Rightarrow> string" where
  "e_name e = snd (snd (snd e))"

text \<open>
  The module-level loop that fills \<^verbatim>\<open>FRETBOARD\<close>: the outer loop runs over the items of
  the tuning table, the inner one over \<^verbatim>\<open>range(0, MAX_FRET + 1)\<close>, and each iteration
  appends the tuple \<open>fret_row s open_midi fret\<close>.
\<close>

definition fret_row :: "int \<Rightarrow> int \<Rightarrow> int \<Rightarrow> fret_entry" where
  "fret_row s open_midi fret =
     (let midi = open_midi + fret;
          name = midi_to_note_name midi
      in (s, fret, midi, name))"

definition build_fretboard :: "(int \<times> int) list \<Rightarrow> int \<Rightarrow> fret_entry list" where
  "build_fretboard tuning max_fret =
     concat (map (\<lambda>(s, open_midi). map (fret_row s open_midi) [0..max_fret]) tuning)"

definition FRETBOARD :: "fret_entry list" where
  "FRETBOARD = build_fretboard STRING_TUNING_MIDI MAX_FRET"

section \<open>Frequency to MIDI and nearest fret\<close>

text \<open>
  The division \<^verbatim>\<open>frequency / 440.0\<close> is a binary64 division, rounded to nearest with ties
  to even. The smallest positive double is \<open>2^-1074\<close>, so a positive exact quotient of
  at most \<open>2^-1075\<close> is rounded to \<^verbatim>\<open>0.0\<close>. This happens for the positive doubles up to
  \<open>220 * 2^-1074\<close>, about \<open>1.09e-321\<close>.
\<close>

definition quotient_underflows :: "real \<Rightarrow> bool" where
  "quotient_underflows q \<longleftrightarrow> q \<le> 1 / 2 ^ 1075"

text \<open>
  \<^verbatim>\<open>freq_to_midi\<close>: the argument may be \<^verbatim>\<open>None\<close>, hence \<open>real option\<close>. Where the quotient
  has underflowed, \<^verbatim>\<open>math.log2(0.0)\<close> raises \<^verbatim>\<open>ValueError\<close>; the source does not catch it.
\<close>

definition freq_to_midi :: "real option \<Rightarrow> exn + real option" where
  "freq_to_midi frequency =
     (case frequency of
        None \<Rightarrow> Inr None
      | Some f \<Rightarrow>
          if f \<le> 0 then Inr None
          else
            (let q = f / 440
             in if quotient_underflows q then Inl ValueError
                else Inr (Some (69 + 12 * log 2 q))))"

text \<open>
  The scan of \<^verbatim>\<open>nearest_fret_from_freq\<close> (lines 78 to 85): \<open>best\<close> and \<open>best_dist\<close> are
  the loop's two variables, the list is what remains of the fretboard.
\<close>

fun nearest_loop :: "real \<Rightarrow> fret_entry list \<Rightarrow> fret_entry option \<Rightarrow> real \<Rightarrow> fret_entry option" where
  "nearest_loop midi_est [] best best_dist = best"
| "nearest_loop midi_est ((s, fret, midi, name) # rest) best best_dist =
     (let dist = \<bar>midi_est - of_int midi\<bar>
      in if dist < best_dist
         then nearest_loop midi_est rest (Some (s, fret, midi, name)) dist
         else nearest_loop midi_est rest best best_dist)"

text \<open>The distance the scan compares: \<^verbatim>\<open>abs(midi_est - midi)\<close> for an entry.\<close>

definition dist_to :: "real \<Rightarrow> fret_entry \<Rightarrow> real" where
  "dist_to midi_est e = \<bar>midi_est - of_int (e_midi e)\<bar>"

text \<open>The scan with its initial values, over a fretboard given as a parameter.\<close>

definition nearest_fret :: "fret_entry list \<Rightarrow> real \<Rightarrow> fret_entry option" where
  "nearest_fret fretboard midi_est = nearest_loop midi_est fretboard None 999"

definition nearest_fret_from_freq :: "real option \<Rightarrow> exn + fret_entry option" where
  "nearest_fret_from_freq freq =
     (case freq_to_midi freq of
        Inl e \<Rightarrow> Inl e
      | Inr None \<Rightarrow> Inr None
      | Inr (Some midi_est) \<Rightarrow> Inr (nearest_fret FRETBOARD midi_est))"

text \<open>
  \<^verbatim>\<open>random.choice(seq)\<close> returns \<^verbatim>\<open>seq[k]\<close> for a random \<open>k\<close> below \<^verbatim>\<open>len(seq)\<close>, and
  raises \<^verbatim>\<open>IndexError\<close> on an empty sequence. The random source is injected as a natural
  number \<open>r\<close>; \<open>r mod length seq\<close> ranges over every index as \<open>r\<close> ranges over \<open>nat\<close>.
\<close>

definition random_choice :: "'a list \<Rightarrow> nat \<Rightarrow> exn + 'a" where
  "random_choice seq r =
     (if seq = [] then Inl IndexError else Inr (seq ! (r mod length seq)))"

text \<open>The target tuple \<^verbatim>\<open>(string, midi, pc_name, fret, name)\<close>.\<close>

type_synonym target = "int \<times> int \<times> string \<times> int \<times> string"

definition t_string :: "target \<Rightarrow> int" where
  "t_string t = fst t"

definition t_midi :: "target \<Rightarrow> int" where
  "t_midi t = fst (snd t)"

definition t_pc :: "target \<Rightarrow> string" where
  "t_pc t = fst (snd (snd t))"

definition t_fret :: "target \<Rightarrow> int" where
  "t_fret t = fst (snd (snd (snd t)))"

definition t_full :: "target \<Rightarrow> string" where
  "t_full t = snd (snd (snd (snd t)))"

definition random_target_string_and_note :: "nat \<Rightarrow> nat \<Rightarrow> exn + target" where
  "random_target_string_and_note r1 r2 =
     (case random_choice (map fst STRING_TUNING_MIDI) r1 of
        Inl e \<Rightarrow> Inl e
      | Inr string \<Rightarrow>
          (let candidates = filter (\<lambda>entry. e_string entry = string) FRETBOARD
           in case random_choice candidates r2 of
                Inl e \<Rightarrow> Inl e
              | Inr (_, fret, midi, name) \<Rightarrow>
                  Inr (string, midi, pitch_class_name midi, fret, name)))"

section \<open>Pitch from one chunk\<close>

text \<open>
  The numpy operations used by \<^verbatim>\<open>detect_pitch_from_chunk\<close>, on lists of reals.
  \<^verbatim>\<open>np.max\<close> and \<^verbatim>\<open>np.argmax\<close> raise \<^verbatim>\<open>ValueError\<close> on an empty array; \<^verbatim>\<open>np.argmax\<close>
  returns the first index of the maximum.
\<close>

definition np_mean :: "real list \<Rightarrow> real" where
  "np_mean xs = sum_list xs / real (length xs)"

definition np_max :: "real list \<Rightarrow> exn + real" where
  "np_max xs = (case xs of [] \<Rightarrow> Inl ValueError | x # rest \<Rightarrow> Inr (fold max rest x))"

fun argmax_loop :: "real list \<Rightarrow> nat \<Rightarrow> nat \<Rightarrow> real \<Rightarrow> nat" where
  "argmax_loop [] i best best_v = best"
| "argmax_loop (x # xs) i best best_v =
     (if best_v < x then argmax_loop xs (Suc i) i x
      else argmax_loop xs (Suc i) best best_v)"

definition np_argmax :: "real list \<Rightarrow> exn + nat" where
  "np_argmax xs =
     (case xs of [] \<Rightarrow> Inl ValueError | x # rest \<Rightarrow> Inr (argmax_loop rest 1 0 x))"

text \<open>
  \<^verbatim>\<open>np.correlate(a, v, mode="full")\<close>: output index \<open>j\<close> holds the sum of
  \<open>a[i + k] * v[i]\<close> for lag \<open>k = j - (len(v) - 1)\<close>, over the \<open>i\<close> where both indices
  are inside their arrays; there are \<open>len(a) + len(v) - 1\<close> outputs.
\<close>

definition np_correlate_full :: "real list \<Rightarrow> real list \<Rightarrow> real list" where
  "np_correlate_full a v =
     map (\<lambda>j. let k = int j - (int (length v) - 1)
              in sum_list (map (\<lambda>i. a ! nat (int i + k) * v ! i)
                               (filter (\<lambda>i. 0 \<le> int i + k \<and> int i + k < int (length a))
                                       [0..<length v])))
         [0..<length a + length v - 1]"

text \<open>
  A slice bound \<open>i\<close> of an array of length \<open>n\<close>, normalised as Python does: a negative
  bound counts from the end, and the result is clipped to \<open>[0, n]\<close>.
\<close>

definition slice_bound :: "nat \<Rightarrow> int \<Rightarrow> nat" where
  "slice_bound n i = (if i < 0 then nat (max 0 (int n + i)) else min n (nat i))"

definition slice :: "'a list \<Rightarrow> int \<Rightarrow> int \<Rightarrow> 'a list" where
  "slice xs lo hi =
     (let l = slice_bound (length xs) lo; h = slice_bound (length xs) hi
      in take (h - l) (drop l xs))"

definition zero_prefix :: "real list \<Rightarrow> int \<Rightarrow> real list" where
  "zero_prefix xs hi =
     (let h = slice_bound (length xs) hi in replicate h 0 @ drop h xs)"

text \<open>\<^verbatim>\<open>int(x)\<close> on a float truncates towards zero.\<close>

definition py_int :: "real \<Rightarrow> int" where
  "py_int x = (if 0 \<le> x then \<lfloor>x\<rfloor> else \<lceil>x\<rceil>)"

definition min_lag :: int where
  "min_lag = py_int (of_int SAMPLE_RATE / MAX_F0)"

definition max_lag_raw :: int where
  "max_lag_raw = py_int (of_int SAMPLE_RATE / MIN_F0)"

text \<open>Lines 108 and 109: the clamp of \<^verbatim>\<open>max_lag\<close> against the length of \<^verbatim>\<open>corr\<close>.\<close>

definition clamp_max_lag :: "real list \<Rightarrow> int" where
  "clamp_max_lag corr =
     (if max_lag_raw \<ge> int (length corr) then int (length corr) - 1 else max_lag_raw)"

text \<open>
  Lines 105 to 116: the lag search on the correlation array. The result is the lag, or
  \<open>None\<close> where the source returns \<^verbatim>\<open>None\<close>.
\<close>

definition find_lag :: "real list \<Rightarrow> exn + int option" where
  "find_lag corr =
     (let max_lag = clamp_max_lag corr
      in if min_lag \<ge> max_lag then Inr None
         else
           (let corr' = zero_prefix corr min_lag
            in case np_argmax (slice corr' min_lag max_lag) of
                 Inl e \<Rightarrow> Inl e
               | Inr i \<Rightarrow>
                   (let lag = int i + min_lag
                    in if lag \<le> 0 then Inr None else Inr (Some lag))))"

text \<open>Lines 94 to 103: DC removal, silence gate, normalisation, autocorrelation.\<close>

definition correlation_half :: "real list \<Rightarrow> exn + real list option" where
  "correlation_half audio0 =
     (let audio = map (\<lambda>x. x - np_mean audio0) audio0
      in case np_max (map abs audio) of
           Inl e \<Rightarrow> Inl e
         | Inr peak \<Rightarrow>
             if peak < AMPLITUDE_THRESHOLD then Inr None
             else
               (let audio' = map (\<lambda>x. x / peak) audio;
                    corr = np_correlate_full audio' audio'
                in Inr (Some (drop (length corr div 2) corr))))"

definition detect_pitch_from_chunk :: "real list option \<Rightarrow> exn + real option" where
  "detect_pitch_from_chunk audio_arg =
     (case audio_arg of
        None \<Rightarrow> Inr None
      | Some audio0 \<Rightarrow>
          if length audio0 = 0 then Inr None
          else
            (case correlation_half audio0 of
               Inl e \<Rightarrow> Inl e
             | Inr None \<Rightarrow> Inr None
             | Inr (Some corr) \<Rightarrow>
                 (case find_lag corr of
                    Inl e \<Rightarrow> Inl e
                  | Inr None \<Rightarrow> Inr None
                  | Inr (Some lag) \<Rightarrow>
                      (let freq = of_int SAMPLE_RATE / of_int lag
                       in if freq < MIN_F0 \<or> freq > MAX_F0 then Inr None
                          else Inr (Some freq)))))"

section \<open>Main loop\<close>

text \<open>
  The loop of \<^verbatim>\<open>main\<close> with its local variables as an explicit state. What the loop
  prints is recorded as a list of events rather than as formatted text.
\<close>

type_synonym label = "int \<times> int \<times> string"

datatype out_event =
    TargetLine int string
  | Heard string int int real
  | Correct
  | WrongString
  | DifferentNote

record loop_state =
  last_event_label :: "label option"
  last_event_time :: real
  target :: target

definition label_of :: "fret_entry \<Rightarrow> label" where
  "label_of mapped = (e_string mapped, e_fret mapped, pitch_class_name (e_midi mapped))"

text \<open>
  Lines 161 to 183, for one mapped detection: the debounce test, the update of the two
  debounce variables, and the verdict. The boolean is \<open>True\<close> where the source leaves
  the inner loop with \<^verbatim>\<open>break\<close>. \<open>now\<close> is the value \<^verbatim>\<open>time.time()\<close> returns.
\<close>

definition handle_mapped ::
  "loop_state \<Rightarrow> fret_entry \<Rightarrow> real \<Rightarrow> real \<Rightarrow> bool \<times> loop_state \<times> out_event list" where
  "handle_mapped st mapped freq now =
     (case mapped of (det_string, det_fret, det_midi, det_name) \<Rightarrow>
        let det_pc = pitch_class_name det_midi;
            label = (det_string, det_fret, det_pc)
        in if Some label = last_event_label st
              \<and> now - last_event_time st < EVENT_DEBOUNCE_SECONDS
           then (False, st, [])
           else
             (let st' = st\<lparr>last_event_label := Some label, last_event_time := now\<rparr>;
                  heard = Heard det_name det_string det_fret freq;
                  correct_pc = (det_pc = t_pc (target st));
                  correct_string = (det_string = t_string (target st))
              in if correct_pc \<and> correct_string then (True, st', [heard, Correct])
                 else if correct_pc then (False, st', [heard, WrongString])
                 else (False, st', [heard, DifferentNote])))"

text \<open>Lines 142 to 147: the head of the outer loop draws and announces a target.\<close>

definition new_round :: "loop_state \<Rightarrow> nat \<Rightarrow> nat \<Rightarrow> exn + (loop_state \<times> out_event list)" where
  "new_round st r1 r2 =
     (case random_target_string_and_note r1 r2 of
        Inl e \<Rightarrow> Inl e
      | Inr t \<Rightarrow> Inr (st\<lparr>target := t\<rparr>, [TargetLine (t_string t) (t_pc t)]))"

text \<open>
  The loop's variables when the first inner loop is entered (lines 138 to 147); \<open>r1\<close>
  and \<open>r2\<close> are the outcomes of the two random choices.
\<close>

definition start :: "nat \<Rightarrow> nat \<Rightarrow> exn + (loop_state \<times> out_event list)" where
  "start r1 r2 =
     (case random_target_string_and_note r1 r2 of
        Inl e \<Rightarrow> Inl e
      | Inr t \<Rightarrow>
          Inr (\<lparr>last_event_label = None, last_event_time = 0, target = t\<rparr>,
               [TargetLine (t_string t) (t_pc t)]))"

text \<open>
  One mapped detection, followed by the head of the outer loop where the inner loop
  was left.
\<close>

definition event_step ::
  "loop_state \<Rightarrow> fret_entry \<Rightarrow> real \<Rightarrow> real \<Rightarrow> nat \<Rightarrow> nat \<Rightarrow> exn + (loop_state \<times> out_event list)" where
  "event_step st mapped freq now r1 r2 =
     (case handle_mapped st mapped freq now of
        (won, st', out) \<Rightarrow>
          if won
          then (case new_round st' r1 r2 of
                  Inl e \<Rightarrow> Inl e
                | Inr (st'', out') \<Rightarrow> Inr (st'', out @ out'))
          else Inr (st', out))"

text \<open>One pass of the inner loop body on one chunk read from the stream.\<close>

definition trainer_step ::
  "loop_state \<Rightarrow> real list \<Rightarrow> real \<Rightarrow> nat \<Rightarrow> nat \<Rightarrow> exn + (loop_state \<times> out_event list)" where
  "trainer_step st chunk now r1 r2 =
     (case detect_pitch_from_chunk (Some chunk) of
        Inl e \<Rightarrow> Inl e
      | Inr None \<Rightarrow> Inr (st, [])
      | Inr (Some freq) \<Rightarrow>
          (case nearest_fret_from_freq (Some freq) of
             Inl e \<Rightarrow> Inl e
           | Inr None \<Rightarrow> Inr (st, [])
           | Inr (Some mapped) \<Rightarrow> event_step st mapped freq now r1 r2))"

text \<open>A finite run of mapped detections, each with its clock reading and random outcomes.\<close>

fun feed ::
  "loop_state \<Rightarrow> (fret_entry \<times> real \<times> real \<times> nat \<times> nat) list \<Rightarrow> exn + (loop_state \<times> out_event list)" where
  "feed st [] = Inr (st, [])"
| "feed st ((mapped, freq, now, r1, r2) # rest) =
     (case event_step st mapped freq now r1 r2 of
        Inl e \<Rightarrow> Inl e
      | Inr (st', out) \<Rightarrow>
          (case feed st' rest of
             Inl e \<Rightarrow> Inl e
           | Inr (st'', out') \<Rightarrow> Inr (st'', out @ out')))"

fun is_heard :: "out_event \<Rightarrow> bool" where
  "is_heard (Heard n s f q) = True"
| "is_heard other = False"

text \<open>An accepted detection prints one \<open>Heard\<close> line; they are counted in the output.\<close>

definition accepted_events :: "out_event list \<Rightarrow> nat" where
  "accepted_events out = length (filter is_heard out)"

text \<open>The condition of the debounce test at line 167, for a mapped detection.\<close>

definition suppressed :: "loop_state \<Rightarrow> fret_entry \<Rightarrow> real \<Rightarrow> bool" where
  "suppressed st mapped now \<longleftrightarrow>
     last_event_label st = Some (label_of mapped)
     \<and> now - last_event_time st < EVENT_DEBOUNCE_SECONDS"

text \<open>A state of the loop used in the examples: nothing accepted yet, target string 6, note E.\<close>

definition example_state :: loop_state where
  "example_state = \<lparr>last_event_label = None, last_event_time = 0, target = (6, 40, ''E'', 0, ''E2'')\<rparr>"

section \<open>Properties of the fretboard\<close>

lemma upto_0_12: "[0..12::int] = [0,1,2,3,4,5,6,7,8,9,10,11,12]"
  by (simp add: upto_rec1)

lemma filter_eq_upto:
  "filter (\<lambda>x. x = k) [i..j] = (if i \<le> k \<and> k \<le> j then [k] else [])"
proof (induction i j rule: upto.induct)
  case (1 i j)
  show ?case
  proof (cases "i \<le> j")
    case True
    then have "[i..j] = i # [i+1..j]" by (simp add: upto_rec1)
    with 1 True show ?thesis by auto
  next
    case False then show ?thesis by auto
  qed
qed

lemma build_fretboard_Nil: "build_fretboard [] max_fret = []"
  by (simp add: build_fretboard_def)

lemma build_fretboard_Cons:
  "build_fretboard ((s, open_midi) # tuning) max_fret =
     map (fret_row s open_midi) [0..max_fret] @ build_fretboard tuning max_fret"
  by (simp add: build_fretboard_def)

lemma length_build_fretboard:
  "length (build_fretboard tuning max_fret) = length tuning * nat (max_fret + 1)"
  by (induction tuning) (auto simp: build_fretboard_Nil build_fretboard_Cons)

lemma set_build_fretboard:
  "set (build_fretboard tuning max_fret) =
     {fret_row s open_midi fret | s open_midi fret.
        (s, open_midi) \<in> set tuning \<and> 0 \<le> fret \<and> fret \<le> max_fret}"
proof (induction tuning)
  case Nil
  then show ?case by (simp add: build_fretboard_Nil)
next
  case (Cons p tuning)
  obtain s' o' where p: "p = (s', o')" by (cases p)
  show ?case unfolding p build_fretboard_Cons set_append Cons.IH
    by (auto; blast)
qed

lemma filter_row:
  "filter (\<lambda>e. e_string e = s \<and> e_fret e = fret) (map (fret_row s' open_midi) [0..max_fret]) =
     (if s' = s \<and> 0 \<le> fret \<and> fret \<le> max_fret then [fret_row s' open_midi fret] else [])"
proof -
  have "filter (\<lambda>e. e_string e = s \<and> e_fret e = fret) (map (fret_row s' open_midi) [0..max_fret]) =
        map (fret_row s' open_midi) (filter (\<lambda>x. s' = s \<and> x = fret) [0..max_fret])"
    by (simp add: filter_map comp_def fret_row_def Let_def e_string_def e_fret_def)
  also have "\<dots> = (if s' = s \<and> 0 \<le> fret \<and> fret \<le> max_fret then [fret_row s' open_midi fret] else [])"
    by (cases "s' = s") (simp_all add: filter_eq_upto)
  finally show ?thesis .
qed

lemma filter_build_fretboard:
  "distinct (map fst tuning) \<Longrightarrow> (s, open_midi) \<in> set tuning \<Longrightarrow> 0 \<le> fret \<Longrightarrow> fret \<le> max_fret \<Longrightarrow>
   filter (\<lambda>e. e_string e = s \<and> e_fret e = fret) (build_fretboard tuning max_fret) =
     [fret_row s open_midi fret]"
proof (induction tuning)
  case Nil
  then show ?case by simp
next
  case (Cons p tuning)
  obtain s' o' where p: "p = (s', o')" by (cases p)
  show ?case
  proof (cases "s' = s")
    case True
    with Cons.prems p have o: "o' = open_midi" by (auto simp: rev_image_eqI)
    have "\<forall>q \<in> set tuning. fst q \<noteq> s" using Cons.prems True p by auto
    then have "filter (\<lambda>e. e_string e = s \<and> e_fret e = fret) (build_fretboard tuning max_fret) = []"
      by (auto simp: filter_empty_conv set_build_fretboard fret_row_def Let_def e_string_def)
    then show ?thesis using Cons.prems True o p
      by (simp add: build_fretboard_Cons filter_row)
  next
    case False
    then have "(s, open_midi) \<in> set tuning" using Cons.prems p by auto
    then show ?thesis using Cons False p
      by (simp add: build_fretboard_Cons filter_row)
  qed
qed

lemma filter_midi_build_fretboard:
  assumes "distinct (map fst tuning)" "(s, open_midi) \<in> set tuning" "0 \<le> fret" "fret \<le> max_fret"
  shows "filter (\<lambda>e. e_string e = s \<and> e_midi e = open_midi + fret) (build_fretboard tuning max_fret) =
           [fret_row s open_midi fret]"
proof -
  have "(e_string e = s \<and> e_midi e = open_midi + fret) = (e_string e = s \<and> e_fret e = fret)"
    if "e \<in> set (build_fretboard tuning max_fret)" for e
  proof -
    from that obtain s' o' f' where e: "e = fret_row s' o' f'" "(s', o') \<in> set tuning"
      unfolding set_build_fretboard by blast
    show ?thesis
    proof (cases "s' = s")
      case True
      with e(2) assms(1,2) have "o' = open_midi" by (meson eq_key_imp_eq_value)
      then show ?thesis using e(1) by (simp add: fret_row_def Let_def e_string_def e_midi_def e_fret_def)
    next
      case False
      then show ?thesis using e(1) by (simp add: fret_row_def Let_def e_string_def)
    qed
  qed
  then have "filter (\<lambda>e. e_string e = s \<and> e_midi e = open_midi + fret) (build_fretboard tuning max_fret) =
             filter (\<lambda>e. e_string e = s \<and> e_fret e = fret) (build_fretboard tuning max_fret)"
    by (intro filter_cong) simp_all
  then show ?thesis using filter_build_fretboard [OF assms] by simp
qed

lemma note_name_examples:
  "midi_to_note_name 69 = ''A4''" "midi_to_note_name 60 = ''C4''" "midi_to_note_name 0 = ''C-1''"
  by (simp_all add: midi_to_note_name_def NOTE_NAMES_def str_int_def str_nat.simps)

lemma distinct_tuning: "distinct (map fst STRING_TUNING_MIDI)"
  by (simp add: STRING_TUNING_MIDI_def)

text \<open>
  Claim C5. The fretboard built at startup has exactly \<open>6 * (MAX_FRET + 1)\<close> entries.
  For every string \<open>s\<close> of the tuning table and every fret in \<open>[0, MAX_FRET]\<close> it holds
  exactly one entry for the position \<open>(s, fret)\<close>, and that entry's MIDI note is the open
  string's note plus the fret; it is also the only entry of string \<open>s\<close> with that MIDI
  note. Conversely every entry comes from a string of the table and a fret in range. (MIDI notes repeat across strings, so "exactly one" is per
  position, not per MIDI value.)
\<close>

theorem fretboard_complete:
  "length FRETBOARD = 6 * nat (MAX_FRET + 1) \<and>
   (\<forall>(s, open_midi) \<in> set STRING_TUNING_MIDI. \<forall>fret \<in> {0..MAX_FRET}.
      filter (\<lambda>e. e_string e = s \<and> e_fret e = fret) FRETBOARD =
        [(s, fret, open_midi + fret, midi_to_note_name (open_midi + fret))]) \<and>
   (\<forall>(s, open_midi) \<in> set STRING_TUNING_MIDI. \<forall>fret \<in> {0..MAX_FRET}.
      filter (\<lambda>e. e_string e = s \<and> e_midi e = open_midi + fret) FRETBOARD =
        [(s, fret, open_midi + fret, midi_to_note_name (open_midi + fret))]) \<and>
   (\<forall>e \<in> set FRETBOARD. \<exists>open_midi.
      (e_string e, open_midi) \<in> set STRING_TUNING_MIDI \<and> e_fret e \<in> {0..MAX_FRET} \<and>
      e_midi e = open_midi + e_fret e)"
proof (intro conjI)
  show "length FRETBOARD = 6 * nat (MAX_FRET + 1)"
    by (simp add: FRETBOARD_def length_build_fretboard STRING_TUNING_MIDI_def)
  show "\<forall>(s, open_midi) \<in> set STRING_TUNING_MIDI. \<forall>fret \<in> {0..MAX_FRET}.
      filter (\<lambda>e. e_string e = s \<and> e_fret e = fret) FRETBOARD =
        [(s, fret, open_midi + fret, midi_to_note_name (open_midi + fret))]"
    using filter_build_fretboard [OF distinct_tuning]
    by (auto simp: FRETBOARD_def fret_row_def Let_def)
  show "\<forall>(s, open_midi) \<in> set STRING_TUNING_MIDI. \<forall>fret \<in> {0..MAX_FRET}.
      filter (\<lambda>e. e_string e = s \<and> e_midi e = open_midi + fret) FRETBOARD =
        [(s, fret, open_midi + fret, midi_to_note_name (open_midi + fret))]"
    using filter_midi_build_fretboard [OF distinct_tuning]
    by (auto simp: FRETBOARD_def fret_row_def Let_def)
  show "\<forall>e \<in> set FRETBOARD. \<exists>open_midi.
      (e_string e, open_midi) \<in> set STRING_TUNING_MIDI \<and> e_fret e \<in> {0..MAX_FRET} \<and>
      e_midi e = open_midi + e_fret e"
    by (auto simp: FRETBOARD_def set_build_fretboard fret_row_def Let_def e_string_def e_fret_def e_midi_def)
qed

text \<open>The statement at string 6, fret 5, and at the last entry of the list.\<close>

theorem fretboard_complete_witness:
  "(6, 40) \<in> set STRING_TUNING_MIDI \<and> 5 \<in> {0..MAX_FRET} \<and>
   filter (\<lambda>e. e_string e = 6 \<and> e_fret e = 5) FRETBOARD = [(6, 5, 45, ''A2'')] \<and>
   filter (\<lambda>e. e_string e = 6 \<and> e_midi e = 45) FRETBOARD = [(6, 5, 45, ''A2'')] \<and>
   length FRETBOARD = 78 \<and>
   (1, 12, 76, ''E5'') \<in> set FRETBOARD \<and>
   (e_string (1, 12, 76, ''E5''), 64) \<in> set STRING_TUNING_MIDI \<and>
   e_midi (1, 12, 76, ''E5'') = 64 + e_fret (1, 12, 76, ''E5'')"
proof -
  have a: "(6, 40) \<in> set STRING_TUNING_MIDI" by (simp add: STRING_TUNING_MIDI_def)
  have b: "5 \<in> {0..MAX_FRET}" by (simp add: MAX_FRET_def)
  have n: "midi_to_note_name 45 = ''A2''"
    by (simp add: midi_to_note_name_def NOTE_NAMES_def str_int_def str_nat.simps)
  have n2: "midi_to_note_name 76 = ''E5''"
    by (simp add: midi_to_note_name_def NOTE_NAMES_def str_int_def str_nat.simps)
  have m: "(1, 12, 76, ''E5'') \<in> set FRETBOARD"
    using n2 by (simp add: FRETBOARD_def set_build_fretboard fret_row_def Let_def STRING_TUNING_MIDI_def MAX_FRET_def)
  from fretboard_complete have c1: "length FRETBOARD = 6 * nat (MAX_FRET + 1)"
    and c2: "\<forall>(s, open_midi) \<in> set STRING_TUNING_MIDI. \<forall>fret \<in> {0..MAX_FRET}.
      filter (\<lambda>e. e_string e = s \<and> e_fret e = fret) FRETBOARD =
        [(s, fret, open_midi + fret, midi_to_note_name (open_midi + fret))]"
    and c2': "\<forall>(s, open_midi) \<in> set STRING_TUNING_MIDI. \<forall>fret \<in> {0..MAX_FRET}.
      filter (\<lambda>e. e_string e = s \<and> e_midi e = open_midi + fret) FRETBOARD =
        [(s, fret, open_midi + fret, midi_to_note_name (open_midi + fret))]"
    and c3: "\<forall>e \<in> set FRETBOARD. \<exists>open_midi.
      (e_string e, open_midi) \<in> set STRING_TUNING_MIDI \<and> e_fret e \<in> {0..MAX_FRET} \<and>
      e_midi e = open_midi + e_fret e"
    by blast+
  from c2 a b have "filter (\<lambda>e. e_string e = 6 \<and> e_fret e = 5) FRETBOARD =
        [(6, 5, 40 + 5, midi_to_note_name (40 + 5))]" by blast
  then have f: "filter (\<lambda>e. e_string e = 6 \<and> e_fret e = 5) FRETBOARD = [(6, 5, 45, ''A2'')]"
    using n by simp
  from c2' a b have "filter (\<lambda>e. e_string e = 6 \<and> e_midi e = 40 + 5) FRETBOARD =
        [(6, 5, 40 + 5, midi_to_note_name (40 + 5))]" by blast
  then have f': "filter (\<lambda>e. e_string e = 6 \<and> e_midi e = 45) FRETBOARD = [(6, 5, 45, ''A2'')]"
    using n by simp
  from c3 m obtain om where "(e_string (1, 12, 76, ''E5''), om) \<in> set STRING_TUNING_MIDI"
    "e_midi (1, 12, 76, ''E5'') = om + e_fret (1, 12, 76, ''E5'')" by blast
  then have g: "(e_string (1, 12, 76, ''E5''), 64) \<in> set STRING_TUNING_MIDI \<and>
     e_midi (1, 12, 76, ''E5'') = 64 + e_fret (1, 12, 76, ''E5'')"
    by (simp add: e_midi_def e_fret_def e_string_def STRING_TUNING_MIDI_def)
  from c1 have l: "length FRETBOARD = 78" by (simp add: MAX_FRET_def)
  show ?thesis using a b f f' l m g by blast
qed

section \<open>Nearest fret\<close>

lemma nearest_loop_Cons:
  "nearest_loop midi_est (e # rest) best best_dist =
     (if dist_to midi_est e < best_dist
      then nearest_loop midi_est rest (Some e) (dist_to midi_est e)
      else nearest_loop midi_est rest best best_dist)"
  by (cases e) (simp add: dist_to_def e_midi_def Let_def)

lemma nearest_loop_None:
  "nearest_loop midi_est fb best best_dist = None \<longleftrightarrow>
     best = None \<and> (\<forall>e \<in> set fb. \<not> dist_to midi_est e < best_dist)"
proof (induction fb arbitrary: best best_dist)
  case Nil
  then show ?case by simp
next
  case (Cons e rest)
  show ?case
    unfolding nearest_loop_Cons using Cons.IH by auto
qed

lemma nearest_loop_Some:
  assumes "nearest_loop midi_est fb best best_dist = Some e"
  shows "(best = Some e \<and> (\<forall>x \<in> set fb. \<not> dist_to midi_est x < best_dist)) \<or>
         (\<exists>pre post. fb = pre @ e # post \<and> dist_to midi_est e < best_dist \<and>
            (\<forall>x \<in> set pre. dist_to midi_est e < dist_to midi_est x) \<and>
            (\<forall>x \<in> set post. dist_to midi_est e \<le> dist_to midi_est x))"
  using assms
proof (induction fb arbitrary: best best_dist)
  case Nil
  then show ?case by simp
next
  case (Cons a rest)
  show ?case
  proof (cases "dist_to midi_est a < best_dist")
    case True
    with Cons.prems have r: "nearest_loop midi_est rest (Some a) (dist_to midi_est a) = Some e"
      by (simp add: nearest_loop_Cons)
    from Cons.IH [OF r] show ?thesis
    proof
      assume h: "Some a = Some e \<and> (\<forall>x \<in> set rest. \<not> dist_to midi_est x < dist_to midi_est a)"
      then have "a # rest = [] @ e # rest" by simp
      moreover have "dist_to midi_est e < best_dist" using h True by simp
      moreover have "\<forall>x \<in> set rest. dist_to midi_est e \<le> dist_to midi_est x"
        using h by (auto simp: not_less)
      ultimately show ?thesis by (metis empty_iff list.set(1))
    next
      assume "\<exists>pre post. rest = pre @ e # post \<and> dist_to midi_est e < dist_to midi_est a \<and>
            (\<forall>x \<in> set pre. dist_to midi_est e < dist_to midi_est x) \<and>
            (\<forall>x \<in> set post. dist_to midi_est e \<le> dist_to midi_est x)"
      then obtain pre post where p: "rest = pre @ e # post"
        "dist_to midi_est e < dist_to midi_est a"
        "\<forall>x \<in> set pre. dist_to midi_est e < dist_to midi_est x"
        "\<forall>x \<in> set post. dist_to midi_est e \<le> dist_to midi_est x" by blast
      have "a # rest = (a # pre) @ e # post" using p by simp
      moreover have "dist_to midi_est e < best_dist" using p True by simp
      moreover have "\<forall>x \<in> set (a # pre). dist_to midi_est e < dist_to midi_est x"
        using p by simp
      ultimately show ?thesis using p(4) by blast
    qed
  next
    case False
    with Cons.prems have r: "nearest_loop midi_est rest best best_dist = Some e"
      by (simp add: nearest_loop_Cons)
    from Cons.IH [OF r] show ?thesis
    proof
      assume "best = Some e \<and> (\<forall>x \<in> set rest. \<not> dist_to midi_est x < best_dist)"
      then show ?thesis using False by simp
    next
      assume "\<exists>pre post. rest = pre @ e # post \<and> dist_to midi_est e < best_dist \<and>
            (\<forall>x \<in> set pre. dist_to midi_est e < dist_to midi_est x) \<and>
            (\<forall>x \<in> set post. dist_to midi_est e \<le> dist_to midi_est x)"
      then obtain pre post where p: "rest = pre @ e # post"
        "dist_to midi_est e < best_dist"
        "\<forall>x \<in> set pre. dist_to midi_est e < dist_to midi_est x"
        "\<forall>x \<in> set post. dist_to midi_est e \<le> dist_to midi_est x" by blast
      have "a # rest = (a # pre) @ e # post" using p by simp
      moreover have "\<forall>x \<in> set (a # pre). dist_to midi_est e < dist_to midi_est x"
        using p False by auto
      ultimately show ?thesis using p(2) p(4) by blast
    qed
  qed
qed

text \<open>
  Claim C2. Whenever the scan returns an entry, that entry is in the fretboard, no entry
  is nearer to the estimate, and every entry that comes before it in the list is
  strictly farther: among the entries at minimal distance the first one in generation
  order is returned.
\<close>

theorem nearest_fret_minimal:
  assumes "nearest_fret fretboard midi_est = Some e"
  shows "e \<in> set fretboard \<and>
         (\<forall>x \<in> set fretboard. dist_to midi_est e \<le> dist_to midi_est x) \<and>
         (\<exists>pre post. fretboard = pre @ e # post \<and>
            (\<forall>x \<in> set pre. dist_to midi_est e < dist_to midi_est x))"
proof -
  from assms have "nearest_loop midi_est fretboard None 999 = Some e"
    by (simp add: nearest_fret_def)
  from nearest_loop_Some [OF this] obtain pre post where p: "fretboard = pre @ e # post"
    "\<forall>x \<in> set pre. dist_to midi_est e < dist_to midi_est x"
    "\<forall>x \<in> set post. dist_to midi_est e \<le> dist_to midi_est x" by auto
  have "\<forall>x \<in> set fretboard. dist_to midi_est e \<le> dist_to midi_est x"
    using p by (auto simp: less_imp_le)
  moreover have "e \<in> set fretboard" using p by simp
  ultimately show ?thesis using p by blast
qed

lemma FRETBOARD_unfold:
  "FRETBOARD =
   [(6, 0, 40, ''E2''), (6, 1, 41, ''F2''), (6, 2, 42, ''F#2''),
    (6, 3, 43, ''G2''), (6, 4, 44, ''G#2''), (6, 5, 45, ''A2''),
    (6, 6, 46, ''A#2''), (6, 7, 47, ''B2''), (6, 8, 48, ''C3''),
    (6, 9, 49, ''C#3''), (6, 10, 50, ''D3''), (6, 11, 51, ''D#3''),
    (6, 12, 52, ''E3''), (5, 0, 45, ''A2''), (5, 1, 46, ''A#2''),
    (5, 2, 47, ''B2''), (5, 3, 48, ''C3''), (5, 4, 49, ''C#3''),
    (5, 5, 50, ''D3''), (5, 6, 51, ''D#3''), (5, 7, 52, ''E3''),
    (5, 8, 53, ''F3''), (5, 9, 54, ''F#3''), (5, 10, 55, ''G3''),
    (5, 11, 56, ''G#3''), (5, 12, 57, ''A3''), (4, 0, 50, ''D3''),
    (4, 1, 51, ''D#3''), (4, 2, 52, ''E3''), (4, 3, 53, ''F3''),
    (4, 4, 54, ''F#3''), (4, 5, 55, ''G3''), (4, 6, 56, ''G#3''),
    (4, 7, 57, ''A3''), (4, 8, 58, ''A#3''), (4, 9, 59, ''B3''),
    (4, 10, 60, ''C4''), (4, 11, 61, ''C#4''), (4, 12, 62, ''D4''),
    (3, 0, 55, ''G3''), (3, 1, 56, ''G#3''), (3, 2, 57, ''A3''),
    (3, 3, 58, ''A#3''), (3, 4, 59, ''B3''), (3, 5, 60, ''C4''),
    (3, 6, 61, ''C#4''), (3, 7, 62, ''D4''), (3, 8, 63, ''D#4''),
    (3, 9, 64, ''E4''), (3, 10, 65, ''F4''), (3, 11, 66, ''F#4''),
    (3, 12, 67, ''G4''), (2, 0, 59, ''B3''), (2, 1, 60, ''C4''),
    (2, 2, 61, ''C#4''), (2, 3, 62, ''D4''), (2, 4, 63, ''D#4''),
    (2, 5, 64, ''E4''), (2, 6, 65, ''F4''), (2, 7, 66, ''F#4''),
    (2, 8, 67, ''G4''), (2, 9, 68, ''G#4''), (2, 10, 69, ''A4''),
    (2, 11, 70, ''A#4''), (2, 12, 71, ''B4''), (1, 0, 64, ''E4''),
    (1, 1, 65, ''F4''), (1, 2, 66, ''F#4''), (1, 3, 67, ''G4''),
    (1, 4, 68, ''G#4''), (1, 5, 69, ''A4''), (1, 6, 70, ''A#4''),
    (1, 7, 71, ''B4''), (1, 8, 72, ''C5''), (1, 9, 73, ''C#5''),
    (1, 10, 74, ''D5''), (1, 11, 75, ''D#5''), (1, 12, 76, ''E5'')]"
  by (simp add: FRETBOARD_def build_fretboard_def fret_row_def Let_def STRING_TUNING_MIDI_def
      MAX_FRET_def midi_to_note_name_def NOTE_NAMES_def str_int_def str_nat.simps upto_0_12)

lemma first_entry: "(6, 0, 40, ''E2'') \<in> set FRETBOARD"
  by (simp add: FRETBOARD_unfold)

lemma fretboard_midi_range: "e \<in> set FRETBOARD \<Longrightarrow> 40 \<le> e_midi e \<and> e_midi e \<le> 76"
  by (auto simp: FRETBOARD_def set_build_fretboard fret_row_def Let_def e_midi_def
      STRING_TUNING_MIDI_def MAX_FRET_def)

lemma far_estimate: "nearest_fret FRETBOARD 2469 = None"
proof -
  have "999 \<le> dist_to 2469 e" if "e \<in> set FRETBOARD" for e
    using fretboard_midi_range [OF that] by (simp add: dist_to_def)
  then show ?thesis
    by (simp add: nearest_fret_def nearest_loop_None not_less)
qed

lemma log2_pow200: "log 2 ((440 * 2 ^ 200) / 440) = 200"
proof -
  have "((440::real) * 2 ^ 200) / 440 = 2 ^ 200" by (simp del: power_numeral)
  moreover have "log 2 ((2::real) ^ 200) = real 200" by (rule log_pow_cancel) simp_all
  ultimately show ?thesis by (simp del: power_numeral)
qed

lemma no_underflow_from_1: "1 \<le> q \<Longrightarrow> \<not> quotient_underflows q"
proof -
  have "(1::real) / 2 ^ 1075 < 1" by simp
  then show "1 \<le> q \<Longrightarrow> \<not> quotient_underflows q"
    unfolding quotient_underflows_def by linarith
qed

lemma no_underflow_in_band: "70 \<le> f \<Longrightarrow> \<not> quotient_underflows (f / 440)"
proof -
  assume f: "70 \<le> f"
  have "(1::real) / 2 ^ 1075 \<le> 1 / 8" by simp
  moreover have "1 / 8 < f / 440" using f by simp
  ultimately show ?thesis unfolding quotient_underflows_def by linarith
qed

lemma freq_to_midi_far: "freq_to_midi (Some (440 * 2 ^ 200)) = Inr (Some 2469)"
proof -
  have p: "(0::real) < 440 * 2 ^ 200" by (simp del: power_numeral)
  have q: "((440::real) * 2 ^ 200) / 440 = 2 ^ 200" by (simp del: power_numeral)
  have "(1::real) \<le> 2 ^ 200" by (rule one_le_power) simp
  then have u: "\<not> quotient_underflows ((440 * 2 ^ 200) / 440)"
    unfolding q by (rule no_underflow_from_1)
  show ?thesis
    using p u log2_pow200 by (simp add: freq_to_midi_def not_le Let_def del: power_numeral)
qed

text \<open>
  Claim C1 as stated fails: the scan starts from \<^verbatim>\<open>best_dist = 999.0\<close>, so an estimate
  that is 999 semitones or more away from every entry is matched to nothing although
  the fretboard is not empty. The frequency \<open>440 * 2 ^ 200\<close> Hz has MIDI value 2469.
\<close>

theorem nearest_fret_counterexample:
  "FRETBOARD \<noteq> [] \<and> nearest_fret FRETBOARD 2469 = None \<and>
   nearest_fret_from_freq (Some (440 * 2 ^ 200)) = Inr None"
proof -
  have "FRETBOARD \<noteq> []" using first_entry by auto
  moreover have "nearest_fret_from_freq (Some (440 * 2 ^ 200)) = Inr None"
    unfolding nearest_fret_from_freq_def freq_to_midi_far using far_estimate by simp
  ultimately show ?thesis using far_estimate by simp
qed

lemma log2_band:
  assumes "70 \<le> f" "f \<le> 1000"
  shows "- 3 \<le> log 2 (f / 440) \<and> log 2 (f / 440) \<le> 2"
proof -
  have p8: "log 2 ((2::real) ^ 3) = real 3" by (rule log_pow_cancel) simp_all
  have p4: "log 2 ((2::real) ^ 2) = real 2" by (rule log_pow_cancel) simp_all
  have l8: "log 2 (1 / 8) = - 3"
    using p8 by (simp add: log_recip)
  have l4: "log 2 4 = 2" using p4 by simp
  have "log 2 (1 / 8) \<le> log 2 (f / 440)"
    by (rule log_mono) (use assms in simp_all)
  moreover have "log 2 (f / 440) \<le> log 2 4"
    by (rule log_mono) (use assms in simp_all)
  ultimately show ?thesis using l8 l4 by simp
qed

lemma nearest_fret_mem: "nearest_fret fretboard midi_est = Some e \<Longrightarrow> e \<in> set fretboard"
proof -
  assume "nearest_fret fretboard midi_est = Some e"
  then have "nearest_loop midi_est fretboard None 999 = Some e" by (simp add: nearest_fret_def)
  from nearest_loop_Some [OF this] show ?thesis by auto
qed

lemma in_band_mapped:
  assumes "MIN_F0 \<le> f" "f \<le> MAX_F0"
  shows "\<exists>e. nearest_fret_from_freq (Some f) = Inr (Some e) \<and> e \<in> set FRETBOARD"
proof -
  from assms have b: "70 \<le> f" "f \<le> 1000" by (simp_all add: MIN_F0_def MAX_F0_def)
  let ?m = "69 + 12 * log 2 (f / 440)"
  have fm: "freq_to_midi (Some f) = Inr (Some ?m)"
    using b no_underflow_in_band [OF b(1)] by (simp add: freq_to_midi_def Let_def)
  have "dist_to ?m (6, 0, 40, ''E2'') < 999"
    using log2_band [OF b] by (simp add: dist_to_def e_midi_def abs_if)
  then have "nearest_fret FRETBOARD ?m \<noteq> None"
    using first_entry by (auto simp: nearest_fret_def nearest_loop_None)
  then obtain e where e: "nearest_fret FRETBOARD ?m = Some e" by blast
  then have "e \<in> set FRETBOARD" by (rule nearest_fret_mem)
  with e show ?thesis by (simp add: nearest_fret_from_freq_def fm)
qed

text \<open>
  Claim C1, amended. The scan returns no entry exactly when every entry of the fretboard
  is at distance 999 or more from the estimate (which includes the empty fretboard).
  For every frequency in the band \<open>[MIN_F0, MAX_F0]\<close>, the only frequencies
  \<^verbatim>\<open>detect_pitch_from_chunk\<close> returns, an entry of the fixed fretboard is returned.
\<close>

theorem nearest_fret_None_iff:
  "(nearest_fret fretboard midi_est = None \<longleftrightarrow>
      (\<forall>e \<in> set fretboard. 999 \<le> dist_to midi_est e)) \<and>
   (MIN_F0 \<le> f \<and> f \<le> MAX_F0 \<longrightarrow>
      (\<exists>e. nearest_fret_from_freq (Some f) = Inr (Some e) \<and> e \<in> set FRETBOARD))"
  using in_band_mapped [of f] by (simp add: nearest_fret_def nearest_loop_None not_less)

lemma nearest_40_5: "nearest_fret FRETBOARD (81 / 2) = Some (6, 0, 40, ''E2'')"
  by (simp add: nearest_fret_def FRETBOARD_unfold)

lemma nearest_45: "nearest_fret FRETBOARD 45 = Some (6, 5, 45, ''A2'')"
  by (simp add: nearest_fret_def FRETBOARD_unfold)

theorem nearest_fret_None_iff_witness:
  "(6, 0, 40, ''E2'') \<in> set FRETBOARD \<and> \<not> 999 \<le> dist_to 45 (6, 0, 40, ''E2'') \<and>
   nearest_fret FRETBOARD 45 \<noteq> None \<and>
   MIN_F0 \<le> 110 \<and> 110 \<le> MAX_F0 \<and>
   (\<exists>e. nearest_fret_from_freq (Some 110) = Inr (Some e) \<and> e \<in> set FRETBOARD)"
proof -
  have d: "\<not> 999 \<le> dist_to 45 (6, 0, 40, ''E2'')" by (simp add: dist_to_def e_midi_def)
  have b: "MIN_F0 \<le> 110 \<and> 110 \<le> MAX_F0" by (simp add: MIN_F0_def MAX_F0_def)
  from nearest_fret_None_iff [of FRETBOARD 45 110] first_entry d b show ?thesis by blast
qed

text \<open>
  The statement of claim C2 at the estimate 40.5, halfway between the first two entries:
  the first is returned, and the second is at the same distance.
\<close>

theorem nearest_fret_minimal_witness:
  "nearest_fret FRETBOARD (81 / 2) = Some (6, 0, 40, ''E2'') \<and>
   (6, 1, 41, ''F2'') \<in> set FRETBOARD \<and>
   dist_to (81 / 2) (6, 0, 40, ''E2'') \<le> dist_to (81 / 2) (6, 1, 41, ''F2'') \<and>
   dist_to (81 / 2) (6, 1, 41, ''F2'') \<le> dist_to (81 / 2) (6, 0, 40, ''E2'')"
proof -
  have m: "(6, 1, 41, ''F2'') \<in> set FRETBOARD" by (simp add: FRETBOARD_unfold)
  have t: "dist_to (81 / 2) (6, 1, 41, ''F2'') \<le> dist_to (81 / 2) (6, 0, 40, ''E2'')"
    by (simp add: dist_to_def e_midi_def)
  from nearest_fret_minimal [OF nearest_40_5] m
  have "dist_to (81 / 2) (6, 0, 40, ''E2'') \<le> dist_to (81 / 2) (6, 1, 41, ''F2'')" by blast
  then show ?thesis using nearest_40_5 m t by simp
qed

section \<open>Random target\<close>

lemma random_choice_mem:
  "seq \<noteq> [] \<Longrightarrow> \<exists>x \<in> set seq. random_choice seq r = Inr x"
  by (simp add: random_choice_def)

lemma fret_row_in_fretboard:
  "(s, open_midi) \<in> set tuning \<Longrightarrow> 0 \<le> fret \<Longrightarrow> fret \<le> max_fret \<Longrightarrow>
   fret_row s open_midi fret \<in> set (build_fretboard tuning max_fret)"
  unfolding set_build_fretboard by blast

lemma candidates_nonempty:
  assumes "s \<in> set (map fst STRING_TUNING_MIDI)"
  shows "filter (\<lambda>entry. e_string entry = s) FRETBOARD \<noteq> []"
proof -
  from assms obtain open_midi where "(s, open_midi) \<in> set STRING_TUNING_MIDI" by auto
  then have "fret_row s open_midi 0 \<in> set FRETBOARD"
    by (simp add: FRETBOARD_def fret_row_in_fretboard MAX_FRET_def)
  moreover have "e_string (fret_row s open_midi 0) = s"
    by (simp add: fret_row_def Let_def e_string_def)
  ultimately show ?thesis by (auto simp: filter_empty_conv)
qed

lemma random_target_shape:
  "\<exists>s open_midi fret. (s, open_midi) \<in> set STRING_TUNING_MIDI \<and> 0 \<le> fret \<and> fret \<le> MAX_FRET \<and>
     random_target_string_and_note r1 r2 =
       Inr (s, open_midi + fret, pitch_class_name (open_midi + fret), fret,
            midi_to_note_name (open_midi + fret))"
proof -
  have "map fst STRING_TUNING_MIDI \<noteq> []" by (simp add: STRING_TUNING_MIDI_def)
  from random_choice_mem [OF this, of r1] obtain s where
    s: "s \<in> set (map fst STRING_TUNING_MIDI)"
       "random_choice (map fst STRING_TUNING_MIDI) r1 = Inr s" by blast
  let ?c = "filter (\<lambda>entry. e_string entry = s) FRETBOARD"
  from random_choice_mem [OF candidates_nonempty [OF s(1)], of r2] obtain e where
    e: "e \<in> set ?c" "random_choice ?c r2 = Inr e" by blast
  from e(1) have "e \<in> set FRETBOARD" "e_string e = s" by simp_all
  then obtain open_midi fret where
    f: "(s, open_midi) \<in> set STRING_TUNING_MIDI" "0 \<le> fret" "fret \<le> MAX_FRET"
       "e = fret_row s open_midi fret"
    by (auto simp: FRETBOARD_def set_build_fretboard fret_row_def Let_def e_string_def)
  have "random_target_string_and_note r1 r2 =
       Inr (s, open_midi + fret, pitch_class_name (open_midi + fret), fret,
            midi_to_note_name (open_midi + fret))"
    using s(2) e(2) f(4) by (simp add: random_target_string_and_note_def fret_row_def Let_def)
  with f show ?thesis by blast
qed

text \<open>
  Claim C10. Whatever the two random choices give, \<^verbatim>\<open>random_target_string_and_note\<close>
  returns (it raises nothing) a target whose string is a key of the tuning table,
  whose fret is in \<open>[0, MAX_FRET]\<close>, whose MIDI note is the open string's note plus the
  fret, whose pitch class name is \<open>NOTE_NAMES[midi mod 12]\<close> and whose full name is
  \<open>midi_to_note_name midi\<close>.
\<close>

theorem random_target_consistent:
  "\<exists>t. random_target_string_and_note r1 r2 = Inr t \<and>
       t_string t \<in> set (map fst STRING_TUNING_MIDI) \<and>
       0 \<le> t_fret t \<and> t_fret t \<le> MAX_FRET \<and>
       map_of STRING_TUNING_MIDI (t_string t) = Some (t_midi t - t_fret t) \<and>
       t_pc t = NOTE_NAMES ! nat (t_midi t mod 12) \<and>
       t_full t = midi_to_note_name (t_midi t)"
proof -
  from random_target_shape [of r1 r2] obtain s open_midi fret where
    f: "(s, open_midi) \<in> set STRING_TUNING_MIDI" "0 \<le> fret" "fret \<le> MAX_FRET"
       "random_target_string_and_note r1 r2 =
         Inr (s, open_midi + fret, pitch_class_name (open_midi + fret), fret,
              midi_to_note_name (open_midi + fret))" by blast
  have "map_of STRING_TUNING_MIDI s = Some open_midi"
    using f(1) by (rule map_of_is_SomeI [OF distinct_tuning])
  moreover have "s \<in> set (map fst STRING_TUNING_MIDI)" using f(1) by force
  ultimately show ?thesis using f
    by (simp add: t_string_def t_midi_def t_pc_def t_fret_def t_full_def pitch_class_name_def)
qed

lemma random_target_example:
  "random_target_string_and_note 7 30 = Inr (5, 49, ''C#'', 4, ''C#3'')"
  by (simp add: random_target_string_and_note_def random_choice_def STRING_TUNING_MIDI_def
      FRETBOARD_unfold e_string_def pitch_class_name_def NOTE_NAMES_def)

section \<open>Frequency conversion\<close>

text \<open>
  What \<^verbatim>\<open>freq_to_midi\<close> does on each kind of argument: \<open>None\<close> exactly for an absent or
  non-positive argument, the formula for a positive frequency whose quotient by 440 does
  not underflow, and \<^verbatim>\<open>ValueError\<close> for a positive frequency whose quotient does.
\<close>

lemma freq_to_midi_cases:
  "(freq_to_midi frequency = Inr None \<longleftrightarrow>
      (frequency = None \<or> (\<exists>f. frequency = Some f \<and> f \<le> 0))) \<and>
   (0 < f \<and> \<not> quotient_underflows (f / 440) \<longrightarrow>
      freq_to_midi (Some f) = Inr (Some (69 + 12 * log 2 (f / 440)))) \<and>
   (0 < f \<and> quotient_underflows (f / 440) \<longrightarrow> freq_to_midi (Some f) = Inl ValueError)"
  by (cases frequency) (auto simp: freq_to_midi_def Let_def)

lemma freq_to_midi_octave: "freq_to_midi (Some 880) = Inr (Some 81)"
  using no_underflow_from_1 [of 2] by (simp add: freq_to_midi_def Let_def)

text \<open>
  Claim C7. The claim says that \<^verbatim>\<open>freq_to_midi\<close> returns \<open>69 + 12 * log2(f / 440)\<close> for
  every frequency above zero. The code does so at 440, where the value is 69, and it
  returns \<open>None\<close> for an absent argument, for 0 and for -5. At the smallest positive
  double \<open>2^-1074\<close> it returns nothing: the quotient by 440 underflows to zero and the
  call raises \<^verbatim>\<open>ValueError\<close>, which the guard \<^verbatim>\<open>frequency <= 0\<close> does not cover.
\<close>

theorem freq_to_midi_underflow_raises:
  "(0::real) < 1 / 2 ^ 1074 \<and>
   freq_to_midi (Some (1 / 2 ^ 1074)) = Inl ValueError \<and>
   nearest_fret_from_freq (Some (1 / 2 ^ 1074)) = Inl ValueError \<and>
   freq_to_midi (Some 440) = Inr (Some 69) \<and>
   freq_to_midi None = Inr None \<and>
   freq_to_midi (Some 0) = Inr None \<and>
   freq_to_midi (Some (- 5)) = Inr None"
proof -
  have p: "(0::real) < 1 / 2 ^ 1074" by simp
  have "((1::real) / 2 ^ 1074) / 440 \<le> 1 / 2 ^ 1075" by simp
  then have u: "quotient_underflows ((1 / 2 ^ 1074) / 440)"
    by (simp only: quotient_underflows_def)
  have np: "\<not> (1::real) / 2 ^ 1074 \<le> 0" using p by linarith
  have r: "freq_to_midi (Some (1 / 2 ^ 1074)) = Inl ValueError"
    unfolding freq_to_midi_def Let_def option.case using np u by (simp only: if_False if_True)
  have n: "nearest_fret_from_freq (Some (1 / 2 ^ 1074)) = Inl ValueError"
    by (simp only: nearest_fret_from_freq_def r sum.case)
  have a: "freq_to_midi (Some 440) = Inr (Some 69)"
    using no_underflow_from_1 [of 1] by (simp add: freq_to_midi_def Let_def)
  have z: "freq_to_midi None = Inr None" "freq_to_midi (Some 0) = Inr None"
    "freq_to_midi (Some (- 5)) = Inr None"
    by (simp_all add: freq_to_midi_def)
  show ?thesis using p r n a z by blast
qed

section \<open>Debounce and decision step\<close>

lemma handle_mapped_suppressed:
  assumes "last_event_label st = Some (label_of mapped)"
    and "now - last_event_time st < EVENT_DEBOUNCE_SECONDS"
  shows "handle_mapped st mapped freq now = (False, st, [])"
  using assms
  by (cases mapped) (simp add: handle_mapped_def label_of_def e_string_def e_fret_def e_midi_def)

lemma handle_mapped_accepted:
  assumes "\<not> (last_event_label st = Some (label_of mapped)
              \<and> now - last_event_time st < EVENT_DEBOUNCE_SECONDS)"
  shows "handle_mapped st mapped freq now =
           (pitch_class_name (e_midi mapped) = t_pc (target st) \<and> e_string mapped = t_string (target st),
            st\<lparr>last_event_label := Some (label_of mapped), last_event_time := now\<rparr>,
            [Heard (e_name mapped) (e_string mapped) (e_fret mapped) freq,
             if pitch_class_name (e_midi mapped) = t_pc (target st)
             then (if e_string mapped = t_string (target st) then Correct else WrongString)
             else DifferentNote])"
proof -
  obtain s f m n where mp: "mapped = (s, f, m, n)" by (cases mapped)
  have c: "\<not> (Some (s, f, pitch_class_name m) = last_event_label st
              \<and> now - last_event_time st < EVENT_DEBOUNCE_SECONDS)"
    using assms by (auto simp: mp label_of_def e_string_def e_fret_def e_midi_def)
  show ?thesis
    using c
    by (auto simp: mp handle_mapped_def Let_def label_of_def e_string_def e_fret_def e_midi_def e_name_def)
qed

lemma new_round_total:
  "\<exists>t. random_target_string_and_note r1 r2 = Inr t \<and>
       new_round st r1 r2 = Inr (st\<lparr>target := t\<rparr>, [TargetLine (t_string t) (t_pc t)])"
proof -
  from random_target_shape [of r1 r2] obtain t where "random_target_string_and_note r1 r2 = Inr t"
    by blast
  then show ?thesis by (simp add: new_round_def)
qed

lemma event_step_suppressed:
  "suppressed st mapped now \<Longrightarrow> event_step st mapped freq now r1 r2 = Inr (st, [])"
  by (simp add: event_step_def suppressed_def handle_mapped_suppressed)

lemma event_step_accepted:
  assumes "\<not> suppressed st mapped now"
  shows "\<exists>st' out. event_step st mapped freq now r1 r2 = Inr (st', out) \<and>
           last_event_label st' = Some (label_of mapped) \<and> last_event_time st' = now \<and>
           accepted_events out = 1"
proof -
  from new_round_total obtain t where
    t: "new_round (st\<lparr>last_event_label := Some (label_of mapped), last_event_time := now\<rparr>) r1 r2 =
        Inr (st\<lparr>last_event_label := Some (label_of mapped), last_event_time := now\<rparr>\<lparr>target := t\<rparr>,
             [TargetLine (t_string t) (t_pc t)])"
    by blast
  show ?thesis
    using assms t
    by (simp add: event_step_def handle_mapped_accepted suppressed_def accepted_events_def)
qed

text \<open>
  Claim C3. A mapped detection leaves the state unchanged and prints nothing exactly
  when its label equals the last accepted label and less than
  \<open>EVENT_DEBOUNCE_SECONDS\<close> have passed since that label was accepted. Otherwise it is
  accepted: the label and the time are stored and one event is printed. So the same
  detection fed twice within the window gives one accepted event, and fed a third time
  once the window (counted from the accepted one) has passed gives a second.
\<close>

theorem debounce_rule:
  "(event_step st mapped freq now r1 r2 = Inr (st, []) \<longleftrightarrow> suppressed st mapped now) \<and>
   (\<not> suppressed st mapped now \<longrightarrow>
      (\<exists>st' out. event_step st mapped freq now r1 r2 = Inr (st', out) \<and>
         last_event_label st' = Some (label_of mapped) \<and> last_event_time st' = now \<and>
         accepted_events out = 1)) \<and>
   (\<not> suppressed st mapped t1 \<and> t2 - t1 < EVENT_DEBOUNCE_SECONDS \<longrightarrow>
      (\<exists>st' out. feed st [(mapped, f1, t1, a1, b1), (mapped, f2, t2, a2, b2)] = Inr (st', out) \<and>
         accepted_events out = 1)) \<and>
   (\<not> suppressed st mapped t1 \<and> t2 - t1 < EVENT_DEBOUNCE_SECONDS
      \<and> \<not> t3 - t1 < EVENT_DEBOUNCE_SECONDS \<longrightarrow>
      (\<exists>st' out. feed st [(mapped, f1, t1, a1, b1), (mapped, f2, t2, a2, b2),
                           (mapped, f3, t3, a3, b3)] = Inr (st', out) \<and>
         accepted_events out = 2))"
proof (intro conjI impI)
  show "event_step st mapped freq now r1 r2 = Inr (st, []) \<longleftrightarrow> suppressed st mapped now"
  proof
    assume e: "event_step st mapped freq now r1 r2 = Inr (st, [])"
    show "suppressed st mapped now"
    proof (rule ccontr)
      assume "\<not> suppressed st mapped now"
      from event_step_accepted [OF this, of freq r1 r2] e show False
        by (auto simp: accepted_events_def)
    qed
  next
    assume "suppressed st mapped now"
    then show "event_step st mapped freq now r1 r2 = Inr (st, [])"
      by (rule event_step_suppressed)
  qed
next
  assume "\<not> suppressed st mapped now"
  then show "\<exists>st' out. event_step st mapped freq now r1 r2 = Inr (st', out) \<and>
         last_event_label st' = Some (label_of mapped) \<and> last_event_time st' = now \<and>
         accepted_events out = 1"
    by (rule event_step_accepted)
next
  assume a: "\<not> suppressed st mapped t1 \<and> t2 - t1 < EVENT_DEBOUNCE_SECONDS"
  from event_step_accepted [of st mapped t1 f1 a1 b1] a obtain st1 out1 where
    s1: "event_step st mapped f1 t1 a1 b1 = Inr (st1, out1)"
        "last_event_label st1 = Some (label_of mapped)" "last_event_time st1 = t1"
        "accepted_events out1 = 1" by blast
  have "suppressed st1 mapped t2" using s1 a by (simp add: suppressed_def)
  then have s2: "event_step st1 mapped f2 t2 a2 b2 = Inr (st1, [])"
    by (rule event_step_suppressed)
  show "\<exists>st' out. feed st [(mapped, f1, t1, a1, b1), (mapped, f2, t2, a2, b2)] = Inr (st', out) \<and>
         accepted_events out = 1"
    using s1 s2 by simp
next
  assume a: "\<not> suppressed st mapped t1 \<and> t2 - t1 < EVENT_DEBOUNCE_SECONDS
      \<and> \<not> t3 - t1 < EVENT_DEBOUNCE_SECONDS"
  from event_step_accepted [of st mapped t1 f1 a1 b1] a obtain st1 out1 where
    s1: "event_step st mapped f1 t1 a1 b1 = Inr (st1, out1)"
        "last_event_label st1 = Some (label_of mapped)" "last_event_time st1 = t1"
        "accepted_events out1 = 1" by blast
  have "suppressed st1 mapped t2" using s1 a by (simp add: suppressed_def)
  then have s2: "event_step st1 mapped f2 t2 a2 b2 = Inr (st1, [])"
    by (rule event_step_suppressed)
  have "\<not> suppressed st1 mapped t3" using s1 a by (simp add: suppressed_def)
  from event_step_accepted [OF this, of f3 a3 b3] obtain st3 out3 where
    s3: "event_step st1 mapped f3 t3 a3 b3 = Inr (st3, out3)" "accepted_events out3 = 1"
    by blast
  show "\<exists>st' out. feed st [(mapped, f1, t1, a1, b1), (mapped, f2, t2, a2, b2),
                           (mapped, f3, t3, a3, b3)] = Inr (st', out) \<and>
         accepted_events out = 2"
    using s1 s2 s3 by (simp add: accepted_events_def)
qed

text \<open>The rule at times 10, 10.3 and 10.5 from the example state.\<close>

theorem debounce_rule_witness:
  "\<not> suppressed example_state (5, 7, 52, ''E3'') 10 \<and>
   (103 / 10 :: real) - 10 < EVENT_DEBOUNCE_SECONDS \<and>
   \<not> (21 / 2 :: real) - 10 < EVENT_DEBOUNCE_SECONDS \<and>
   event_step example_state (5, 7, 52, ''E3'') 165 10 0 0 \<noteq> Inr (example_state, []) \<and>
   (\<exists>st' out. feed example_state [((5, 7, 52, ''E3''), 165, 10, 0, 0),
                        ((5, 7, 52, ''E3''), 165, 103 / 10, 0, 0)] = Inr (st', out) \<and>
      accepted_events out = 1) \<and>
   (\<exists>st' out. feed example_state [((5, 7, 52, ''E3''), 165, 10, 0, 0),
                        ((5, 7, 52, ''E3''), 165, 103 / 10, 0, 0),
                        ((5, 7, 52, ''E3''), 165, 21 / 2, 0, 0)] = Inr (st', out) \<and>
      accepted_events out = 2)"
proof -
  have n: "\<not> suppressed example_state (5, 7, 52, ''E3'') 10" by (simp add: suppressed_def example_state_def)
  have w: "(103 / 10 :: real) - 10 < EVENT_DEBOUNCE_SECONDS"
    by (simp add: EVENT_DEBOUNCE_SECONDS_def)
  have v: "\<not> (21 / 2 :: real) - 10 < EVENT_DEBOUNCE_SECONDS"
    by (simp add: EVENT_DEBOUNCE_SECONDS_def)
  from debounce_rule [of example_state "(5, 7, 52, ''E3'')" 165 10 0 0 10 "103 / 10" 165 0 0 165 0 0 "21 / 2" 165 0 0]
    n w v show ?thesis by blast
qed

text \<open>
  Claim C4. For an accepted detection the step always returns. If both the pitch class
  and the string equal the target's, the new target is the one drawn by
  \<^verbatim>\<open>random_target_string_and_note\<close> and it is announced; in every other case the target
  is unchanged, nothing is drawn or announced, and the verdict is "wrong string" when
  only the pitch class matches and "different note" otherwise.
\<close>

theorem target_replaced_iff:
  assumes "\<not> suppressed st mapped now"
  shows "\<exists>st' out. event_step st mapped freq now r1 r2 = Inr (st', out) \<and>
           (if pitch_class_name (e_midi mapped) = t_pc (target st)
               \<and> e_string mapped = t_string (target st)
            then random_target_string_and_note r1 r2 = Inr (target st') \<and>
                 out = [Heard (e_name mapped) (e_string mapped) (e_fret mapped) freq, Correct,
                        TargetLine (t_string (target st')) (t_pc (target st'))]
            else target st' = target st \<and>
                 out = [Heard (e_name mapped) (e_string mapped) (e_fret mapped) freq,
                        if pitch_class_name (e_midi mapped) = t_pc (target st)
                        then WrongString else DifferentNote])"
proof -
  let ?st = "st\<lparr>last_event_label := Some (label_of mapped), last_event_time := now\<rparr>"
  from new_round_total [of r1 r2 ?st] obtain t where
    t: "random_target_string_and_note r1 r2 = Inr t"
       "new_round ?st r1 r2 = Inr (?st\<lparr>target := t\<rparr>, [TargetLine (t_string t) (t_pc t)])"
    by blast
  show ?thesis
    using assms t
    by (simp add: event_step_def handle_mapped_accepted suppressed_def)
qed

text \<open>
  Both cases from the example state: E3 on string 5 against target string 6, note E
  (target kept), and E3 on string 6 (target replaced by the draw for outcomes 7 and 30).
\<close>

theorem target_replaced_iff_witness:
  "\<not> suppressed example_state (5, 7, 52, ''E3'') 10 \<and>
   (\<exists>st'. event_step example_state (5, 7, 52, ''E3'') 165 10 7 30 =
            Inr (st', [Heard ''E3'' 5 7 165, WrongString]) \<and> target st' = target example_state) \<and>
   \<not> suppressed example_state (6, 12, 52, ''E3'') 10 \<and>
   (\<exists>st'. event_step example_state (6, 12, 52, ''E3'') 165 10 7 30 =
            Inr (st', [Heard ''E3'' 6 12 165, Correct, TargetLine 5 ''C#'']) \<and>
          target st' = (5, 49, ''C#'', 4, ''C#3''))"
proof -
  have n1: "\<not> suppressed example_state (5, 7, 52, ''E3'') 10" by (simp add: suppressed_def example_state_def)
  have n2: "\<not> suppressed example_state (6, 12, 52, ''E3'') 10" by (simp add: suppressed_def example_state_def)
  have pc: "pitch_class_name 52 = ''E''" by (simp add: pitch_class_name_def NOTE_NAMES_def)
  from target_replaced_iff [OF n1, of 165 7 30]
  have a: "\<exists>st'. event_step example_state (5, 7, 52, ''E3'') 165 10 7 30 =
            Inr (st', [Heard ''E3'' 5 7 165, WrongString]) \<and> target st' = target example_state"
    by (simp add: pc example_state_def e_midi_def e_string_def e_fret_def e_name_def t_pc_def t_string_def)
  from target_replaced_iff [OF n2, of 165 7 30] obtain st' out where
    e: "event_step example_state (6, 12, 52, ''E3'') 165 10 7 30 = Inr (st', out)" and
    c: "random_target_string_and_note 7 30 = Inr (target st')"
       "out = [Heard ''E3'' 6 12 165, Correct, TargetLine (t_string (target st')) (t_pc (target st'))]"
    by (auto simp: pc example_state_def e_midi_def e_string_def e_fret_def e_name_def t_pc_def t_string_def)
  from c(1) have tt: "target st' = (5, 49, ''C#'', 4, ''C#3'')"
    by (simp add: random_target_example)
  have b: "\<exists>st'. event_step example_state (6, 12, 52, ''E3'') 165 10 7 30 =
            Inr (st', [Heard ''E3'' 6 12 165, Correct, TargetLine 5 ''C#'']) \<and>
          target st' = (5, 49, ''C#'', 4, ''C#3'')"
    using e c(2) tt by (simp add: t_string_def t_pc_def)
  show ?thesis using n1 a n2 b by blast
qed

section \<open>Pitch detection: lag window and silence gate\<close>

lemma min_lag_val: "min_lag = 44"
  by (simp add: min_lag_def py_int_def SAMPLE_RATE_def MAX_F0_def)

lemma max_lag_raw_val: "max_lag_raw = 630"
  by (simp add: max_lag_raw_def py_int_def SAMPLE_RATE_def MIN_F0_def)

lemma min_lag_floor: "min_lag = \<lfloor>real_of_int SAMPLE_RATE / MAX_F0\<rfloor>"
  by (simp add: min_lag_def py_int_def SAMPLE_RATE_def MAX_F0_def)

lemma max_lag_raw_floor: "max_lag_raw = \<lfloor>real_of_int SAMPLE_RATE / MIN_F0\<rfloor>"
  by (simp add: max_lag_raw_def py_int_def SAMPLE_RATE_def MIN_F0_def)

lemma clamp_max_lag_min: "clamp_max_lag corr = min max_lag_raw (int (length corr) - 1)"
  by (simp add: clamp_max_lag_def)

lemma argmax_loop_bound: "best < i \<Longrightarrow> argmax_loop xs i best v < i + length xs"
proof (induction xs arbitrary: i best v)
  case Nil
  then show ?case by simp
next
  case (Cons x xs)
  have "argmax_loop xs (Suc i) b w < Suc i + length xs" if "b < Suc i" for b w
    using that by (rule Cons.IH)
  from this [of i x] this [of best v] Cons.prems show ?case by simp
qed

lemma np_argmax_bound: "xs \<noteq> [] \<Longrightarrow> \<exists>i < length xs. np_argmax xs = Inr i"
  using argmax_loop_bound [of 0 1 "tl xs" "hd xs"]
  by (cases xs) (simp_all add: np_argmax_def)

lemma length_zero_prefix: "length (zero_prefix xs hi) = length xs"
  by (auto simp: zero_prefix_def slice_bound_def Let_def)

lemma length_slice:
  "0 \<le> lo \<Longrightarrow> lo \<le> hi \<Longrightarrow> hi \<le> int (length xs) \<Longrightarrow> length (slice xs lo hi) = nat (hi - lo)"
  by (auto simp: slice_def slice_bound_def Let_def)

lemma find_lag_none: "min_lag \<ge> clamp_max_lag corr \<Longrightarrow> find_lag corr = Inr None"
  by (simp add: find_lag_def)

lemma find_lag_some:
  assumes "min_lag < clamp_max_lag corr"
  shows "\<exists>lag. find_lag corr = Inr (Some lag) \<and> min_lag \<le> lag \<and> lag < clamp_max_lag corr"
proof -
  let ?hi = "clamp_max_lag corr"
  let ?s = "slice (zero_prefix corr min_lag) min_lag ?hi"
  have hi: "?hi \<le> int (length corr) - 1" by (simp add: clamp_max_lag_def)
  have l0: "0 \<le> min_lag" by (simp add: min_lag_val)
  have "length ?s = nat (?hi - min_lag)"
    using assms hi l0 by (intro length_slice) (simp_all add: length_zero_prefix)
  then have len: "length ?s = nat (?hi - min_lag)" "?s \<noteq> []" using assms by auto
  from np_argmax_bound [OF len(2)] obtain i where
    i: "i < length ?s" "np_argmax ?s = Inr i" by blast
  have "int i + min_lag < ?hi" using i(1) len(1) by linarith
  moreover have "\<not> int i + min_lag \<le> 0" by (simp add: min_lag_val)
  ultimately show ?thesis
    using assms i(2) by (simp add: find_lag_def Let_def)
qed

lemma find_lag_total: "\<exists>r. find_lag corr = Inr r"
  using find_lag_none [of corr] find_lag_some [of corr] by (cases "min_lag < clamp_max_lag corr") auto

lemma half_len: "(n::nat) + n - 1 - (n + n - 1) div 2 = n"
  by linarith

lemma np_max_nonempty: "np_max xs = Inr (Max (set xs))" if "xs \<noteq> []"
proof (cases xs)
  case Nil
  with that show ?thesis by simp
next
  case (Cons x rest)
  have "Max (set (x # rest)) = fold max rest x" by (rule Max.set_eq_fold)
  then show ?thesis unfolding Cons np_max_def by simp
qed

lemma length_np_correlate_full:
  "length (np_correlate_full a v) = length a + length v - 1"
  by (simp add: np_correlate_full_def)

lemma peak_value:
  assumes "audio \<noteq> []"
  shows "np_max (map abs (map (\<lambda>x. x - np_mean audio) audio)) = Inr (Max (set (map (\<lambda>x. \<bar>x - np_mean audio\<bar>) audio)))"
proof -
  let ?a = "map (\<lambda>x. x - np_mean audio) audio"
  have ne: "map abs ?a \<noteq> []" using assms by simp
  have m: "map abs ?a = map (\<lambda>x. \<bar>x - np_mean audio\<bar>) audio" by (simp add: comp_def)
  show ?thesis
    using np_max_nonempty [OF ne] unfolding m .
qed

lemma correlation_half_cases:
  assumes "audio \<noteq> []"
  shows "(Max (set (map (\<lambda>x. \<bar>x - np_mean audio\<bar>) audio)) < AMPLITUDE_THRESHOLD \<and>
            correlation_half audio = Inr None) \<or>
         (\<not> Max (set (map (\<lambda>x. \<bar>x - np_mean audio\<bar>) audio)) < AMPLITUDE_THRESHOLD \<and>
            (\<exists>corr. correlation_half audio = Inr (Some corr) \<and> length corr = length audio))"
proof (cases "Max (set (map (\<lambda>x. \<bar>x - np_mean audio\<bar>) audio)) < AMPLITUDE_THRESHOLD")
  case True
  then have "correlation_half audio = Inr None"
    unfolding correlation_half_def Let_def peak_value [OF assms] by simp
  with True show ?thesis by blast
next
  case False
  define peak where "peak = Max (set (map (\<lambda>x. \<bar>x - np_mean audio\<bar>) audio))"
  define a' where "a' = map (\<lambda>x. x / peak) (map (\<lambda>x. x - np_mean audio) audio)"
  have la: "length a' = length audio" by (simp add: a'_def)
  have "correlation_half audio =
          Inr (Some (drop (length (np_correlate_full a' a') div 2) (np_correlate_full a' a')))"
    unfolding correlation_half_def Let_def peak_value [OF assms] using False
    by (simp only: peak_def [symmetric] a'_def [symmetric] sum.case if_False)
  moreover have "length (drop (length (np_correlate_full a' a') div 2) (np_correlate_full a' a'))
                   = length audio"
    by (simp only: length_drop length_np_correlate_full la half_len)
  ultimately show ?thesis using False by blast
qed

lemma detect_total: "\<exists>r. detect_pitch_from_chunk audio_arg = Inr r"
proof (cases audio_arg)
  case None
  then show ?thesis by (simp add: detect_pitch_from_chunk_def)
next
  case (Some audio)
  show ?thesis
  proof (cases "audio = []")
    case True
    with Some show ?thesis by (simp add: detect_pitch_from_chunk_def)
  next
    case False
    from correlation_half_cases [OF False] show ?thesis
    proof (elim disjE conjE exE)
      assume "correlation_half audio = Inr None"
      then show ?thesis using Some False by (simp add: detect_pitch_from_chunk_def)
    next
      fix corr assume c: "correlation_half audio = Inr (Some corr)"
      from find_lag_total [of corr] obtain r where "find_lag corr = Inr r" by blast
      then show ?thesis using Some False c
        by (cases r) (simp_all add: detect_pitch_from_chunk_def Let_def)
    qed
  qed
qed

lemma detect_in_band:
  "detect_pitch_from_chunk audio_arg = Inr (Some f) \<Longrightarrow> MIN_F0 \<le> f \<and> f \<le> MAX_F0"
  by (auto simp: detect_pitch_from_chunk_def Let_def split: option.splits sum.splits if_splits)

lemma detect_silent:
  assumes "audio \<noteq> []"
    and "Max (set (map (\<lambda>x. \<bar>x - np_mean audio\<bar>) audio)) < AMPLITUDE_THRESHOLD"
  shows "detect_pitch_from_chunk (Some audio) = Inr None"
  using correlation_half_cases [OF assms(1)] assms
  by (auto simp: detect_pitch_from_chunk_def)

lemma detect_zeros: "detect_pitch_from_chunk (Some (replicate n 0)) = Inr None"
proof (cases "n = 0")
  case True
  then show ?thesis by (simp add: detect_pitch_from_chunk_def)
next
  case False
  have "np_mean (replicate n 0) = 0" by (simp add: np_mean_def sum_list_replicate)
  then have "Max (set (map (\<lambda>x. \<bar>x - np_mean (replicate n 0)\<bar>) (replicate n 0))) = 0"
    using False by simp
  then show ?thesis
    using False by (intro detect_silent) (simp_all add: AMPLITUDE_THRESHOLD_def)
qed

lemma detect_short:
  assumes "length audio < 46"
  shows "detect_pitch_from_chunk (Some audio) = Inr None"
proof (cases "audio = []")
  case True
  then show ?thesis by (simp add: detect_pitch_from_chunk_def)
next
  case False
  from correlation_half_cases [OF False] show ?thesis
  proof (elim disjE conjE exE)
    assume "correlation_half audio = Inr None"
    then show ?thesis using False by (simp add: detect_pitch_from_chunk_def)
  next
    fix corr assume c: "correlation_half audio = Inr (Some corr)" "length corr = length audio"
    have "min_lag \<ge> clamp_max_lag corr"
      using assms c(2) by (simp add: clamp_max_lag_def min_lag_val max_lag_raw_val)
    then have "find_lag corr = Inr None" by (rule find_lag_none)
    then show ?thesis using False c by (simp add: detect_pitch_from_chunk_def)
  qed
qed

text \<open>
  Claim C6. The lag window is \<open>min_lag = floor(SAMPLE_RATE / MAX_F0)\<close> and
  \<open>floor(SAMPLE_RATE / MIN_F0)\<close> clamped to the last index of the correlation array;
  the clamp also applies when the unclamped bound equals the array's length. The
  search returns \<open>None\<close> when \<open>min_lag\<close> is not below the clamped bound, and so does
  \<^verbatim>\<open>detect_pitch_from_chunk\<close>. Otherwise both slice bounds lie inside the array
  unclipped, the slice is not empty, and the lag found is in \<open>[min_lag, max_lag)\<close>,
  below the array's length. Neither the search nor the detector raises.
\<close>

theorem lag_window_safe:
  "min_lag = \<lfloor>real_of_int SAMPLE_RATE / MAX_F0\<rfloor> \<and>
   max_lag_raw = \<lfloor>real_of_int SAMPLE_RATE / MIN_F0\<rfloor> \<and>
   clamp_max_lag corr = min max_lag_raw (int (length corr) - 1) \<and>
   (int (length corr) = max_lag_raw \<longrightarrow> clamp_max_lag corr = int (length corr) - 1) \<and>
   (min_lag \<ge> clamp_max_lag corr \<longrightarrow> find_lag corr = Inr None) \<and>
   (correlation_half audio = Inr (Some corr) \<and> min_lag \<ge> clamp_max_lag corr \<longrightarrow>
      detect_pitch_from_chunk (Some audio) = Inr None) \<and>
   (min_lag < clamp_max_lag corr \<longrightarrow>
      (\<exists>lag. find_lag corr = Inr (Some lag) \<and> min_lag \<le> lag \<and> lag < clamp_max_lag corr
         \<and> lag < int (length corr)) \<and>
      slice_bound (length corr) min_lag = nat min_lag \<and>
      slice_bound (length corr) (clamp_max_lag corr) = nat (clamp_max_lag corr) \<and>
      nat (clamp_max_lag corr) < length corr) \<and>
   (\<forall>e. find_lag corr \<noteq> Inl e) \<and>
   (\<forall>e. detect_pitch_from_chunk (Some audio) \<noteq> Inl e)"
proof (intro conjI impI)
  show "min_lag = \<lfloor>real_of_int SAMPLE_RATE / MAX_F0\<rfloor>" by (rule min_lag_floor)
  show "max_lag_raw = \<lfloor>real_of_int SAMPLE_RATE / MIN_F0\<rfloor>" by (rule max_lag_raw_floor)
  show "clamp_max_lag corr = min max_lag_raw (int (length corr) - 1)" by (rule clamp_max_lag_min)
  show "clamp_max_lag corr = int (length corr) - 1" if "int (length corr) = max_lag_raw"
    using that by (simp add: clamp_max_lag_def)
  show "find_lag corr = Inr None" if "min_lag \<ge> clamp_max_lag corr"
    using that by (rule find_lag_none)
  show "detect_pitch_from_chunk (Some audio) = Inr None"
    if "correlation_half audio = Inr (Some corr) \<and> min_lag \<ge> clamp_max_lag corr"
    using that find_lag_none [of corr] by (simp add: detect_pitch_from_chunk_def)
  show "\<forall>e. find_lag corr \<noteq> Inl e" using find_lag_total [of corr] by auto
  show "\<forall>e. detect_pitch_from_chunk (Some audio) \<noteq> Inl e"
    using detect_total [of "Some audio"] by auto
next
  assume a: "min_lag < clamp_max_lag corr"
  have hi: "clamp_max_lag corr \<le> int (length corr) - 1" by (simp add: clamp_max_lag_def)
  from find_lag_some [OF a] hi
  show "\<exists>lag. find_lag corr = Inr (Some lag) \<and> min_lag \<le> lag \<and> lag < clamp_max_lag corr
         \<and> lag < int (length corr)" by force
  show "slice_bound (length corr) min_lag = nat min_lag"
    using a hi by (simp add: slice_bound_def min_lag_val)
  show "slice_bound (length corr) (clamp_max_lag corr) = nat (clamp_max_lag corr)"
    using a hi by (simp add: slice_bound_def min_lag_val)
  show "nat (clamp_max_lag corr) < length corr"
    using a hi by (simp add: min_lag_val)
qed

lemma find_lag_example: "find_lag (map real [0..<50]) = Inr (Some 48)"
  by code_simp

text \<open>
  The statement on an array of length 630 (the equality case of the clamp), on the
  correlation of a three-sample buffer (window empty) and on an array of length 46
  (the smallest with a non-empty window).
\<close>

theorem lag_window_safe_witness:
  "int (length (replicate 630 (0::real))) = max_lag_raw \<and>
   clamp_max_lag (replicate 630 0) = 629 \<and>
   min_lag \<ge> clamp_max_lag [3 / 2, - 1, 1 / 4] \<and>
   correlation_half [1, - 1, 1] = Inr (Some [3 / 2, - 1, 1 / 4]) \<and>
   find_lag [3 / 2, - 1, 1 / 4] = Inr None \<and>
   detect_pitch_from_chunk (Some [1, - 1, 1]) = Inr None \<and>
   min_lag < clamp_max_lag (replicate 46 1) \<and>
   find_lag (replicate 46 1) = Inr (Some 44) \<and>
   nat (clamp_max_lag (replicate 46 1)) < length (replicate 46 (1::real))"
proof -
  have e: "int (length (replicate 630 (0::real))) = max_lag_raw" by (simp add: max_lag_raw_val)
  have s: "min_lag \<ge> clamp_max_lag [3 / 2, - 1, 1 / 4]"
    by (simp add: clamp_max_lag_def min_lag_val max_lag_raw_val)
  have c: "correlation_half [1, - 1, 1] = Inr (Some [3 / 2, - 1, 1 / 4])" by code_simp
  have l: "clamp_max_lag (replicate 46 1) = 45"
    by (simp add: clamp_max_lag_def max_lag_raw_val)
  have b: "min_lag < clamp_max_lag (replicate 46 1)" by (simp add: l min_lag_val)
  note t1 = lag_window_safe [of "replicate 630 0" "[]"]
  note t2 = lag_window_safe [of "[3 / 2, - 1, 1 / 4]" "[1, - 1, 1]"]
  note t3 = lag_window_safe [of "replicate 46 1" "[]"]
  from t1 e have a1: "clamp_max_lag (replicate 630 0) = 629" by simp
  from t2 s c have a2: "find_lag [3 / 2, - 1, 1 / 4] = Inr None"
    "detect_pitch_from_chunk (Some [1, - 1, 1]) = Inr None" by blast+
  from t3 b obtain lag where g: "find_lag (replicate 46 1) = Inr (Some lag)"
    "min_lag \<le> lag" "lag < clamp_max_lag (replicate 46 1)" by blast
  from g(2,3) have "lag = 44" by (simp add: l min_lag_val)
  with g(1) have a3: "find_lag (replicate 46 1) = Inr (Some 44)" by simp
  from t3 b have a4: "nat (clamp_max_lag (replicate 46 1)) < length (replicate 46 (1::real))" by blast
  show ?thesis using e a1 s c a2 b a3 a4 by blast
qed

text \<open>
  Claim C8. \<^verbatim>\<open>detect_pitch_from_chunk\<close> returns \<open>None\<close> for an absent buffer, for the
  empty buffer, for every buffer whose largest absolute sample after subtracting the
  mean is below \<open>AMPLITUDE_THRESHOLD\<close>, and for every all-zero buffer.
\<close>

theorem silence_gate:
  "detect_pitch_from_chunk None = Inr None \<and>
   detect_pitch_from_chunk (Some []) = Inr None \<and>
   (audio \<noteq> [] \<and> Max (set (map (\<lambda>x. \<bar>x - np_mean audio\<bar>) audio)) < AMPLITUDE_THRESHOLD \<longrightarrow>
      detect_pitch_from_chunk (Some audio) = Inr None) \<and>
   detect_pitch_from_chunk (Some (replicate n 0)) = Inr None"
proof (intro conjI impI)
  show "detect_pitch_from_chunk None = Inr None" by (simp add: detect_pitch_from_chunk_def)
  show "detect_pitch_from_chunk (Some []) = Inr None" by (simp add: detect_pitch_from_chunk_def)
  show "detect_pitch_from_chunk (Some audio) = Inr None"
    if "audio \<noteq> [] \<and> Max (set (map (\<lambda>x. \<bar>x - np_mean audio\<bar>) audio)) < AMPLITUDE_THRESHOLD"
    using that detect_silent [of audio] by blast
  show "detect_pitch_from_chunk (Some (replicate n 0)) = Inr None" by (rule detect_zeros)
qed

text \<open>A quiet buffer with peak 0.01, and four zero samples.\<close>

theorem silence_gate_witness:
  "[1 / 100, - (1 / 100)] \<noteq> ([] :: real list) \<and>
   Max (set (map (\<lambda>x. \<bar>x - np_mean [1 / 100, - (1 / 100)]\<bar>) [1 / 100, - (1 / 100)]))
     < AMPLITUDE_THRESHOLD \<and>
   detect_pitch_from_chunk (Some [1 / 100, - (1 / 100)]) = Inr None \<and>
   detect_pitch_from_chunk (Some [0, 0, 0, 0]) = Inr None"
proof -
  have m: "np_mean [1 / 100, - (1 / 100)] = 0" by (simp add: np_mean_def)
  have p: "Max (set (map (\<lambda>x. \<bar>x - np_mean [1 / 100, - (1 / 100)]\<bar>) [1 / 100, - (1 / 100)]))
     < AMPLITUDE_THRESHOLD"
    unfolding m by (simp add: AMPLITUDE_THRESHOLD_def)
  have r: "replicate 4 (0::real) = [0, 0, 0, 0]" by (simp add: numeral_eq_Suc)
  from silence_gate [of "[1 / 100, - (1 / 100)]" 4] p r show ?thesis by simp
qed

text \<open>
  Claim C9. With the default constants every buffer of fewer than 46 samples gives
  \<open>None\<close>, whatever it holds: the kept half of the correlation has the buffer's length,
  so the clamped upper lag is at most \<open>min_lag = 44\<close>.
\<close>

theorem short_buffer_none:
  assumes "length audio < 46"
  shows "detect_pitch_from_chunk (Some audio) = Inr None \<and>
         (\<forall>corr. correlation_half audio = Inr (Some corr) \<longrightarrow>
            length corr = length audio \<and> clamp_max_lag corr \<le> min_lag)"
proof (intro conjI allI impI)
  show "detect_pitch_from_chunk (Some audio) = Inr None" using assms by (rule detect_short)
next
  fix corr assume c: "correlation_half audio = Inr (Some corr)"
  have ne: "audio \<noteq> []"
  proof
    assume "audio = []"
    then show False using c by (simp add: correlation_half_def np_max_def)
  qed
  from correlation_half_cases [OF ne] c show l: "length corr = length audio" by auto
  show "clamp_max_lag corr \<le> min_lag"
    using assms l by (simp add: clamp_max_lag_def min_lag_val max_lag_raw_val)
qed

text \<open>A loud three-sample buffer: it passes the silence gate and is rejected by the lag window.\<close>

theorem short_buffer_none_witness:
  "length [1, - 1, 1 :: real] < 46 \<and>
   detect_pitch_from_chunk (Some [1, - 1, 1]) = Inr None \<and>
   correlation_half [1, - 1, 1] = Inr (Some [3 / 2, - 1, 1 / 4]) \<and>
   clamp_max_lag [3 / 2, - 1, 1 / 4] \<le> min_lag"
proof -
  have h: "length [1, - 1, 1 :: real] < 46" by simp
  have c: "correlation_half [1, - 1, 1] = Inr (Some [3 / 2, - 1, 1 / 4])" by code_simp
  from short_buffer_none [OF h] c show ?thesis by simp
qed

section \<open>The loop body returns\<close>

text \<open>
  Neither the start of the loop nor one pass over a chunk raises, for any chunk, clock
  reading and random outcomes; a chunk too short for the lag window changes nothing.
\<close>

lemma start_total: "\<exists>st out. start r1 r2 = Inr (st, out) \<and> last_event_label st = None"
proof -
  from random_target_shape [of r1 r2] obtain t where "random_target_string_and_note r1 r2 = Inr t"
    by blast
  then show ?thesis by (simp add: start_def)
qed

lemma event_step_total: "\<exists>st' out. event_step st mapped freq now r1 r2 = Inr (st', out)"
  using event_step_suppressed [of st mapped now freq r1 r2]
    event_step_accepted [of st mapped now freq r1 r2]
  by (cases "suppressed st mapped now") auto

lemma trainer_step_total: "\<exists>st' out. trainer_step st chunk now r1 r2 = Inr (st', out)"
proof -
  from detect_total [of "Some chunk"] obtain r where
    d: "detect_pitch_from_chunk (Some chunk) = Inr r" by blast
  show ?thesis
  proof (cases r)
    case None
    with d show ?thesis by (simp add: trainer_step_def)
  next
    case (Some freq)
    with d have "MIN_F0 \<le> freq \<and> freq \<le> MAX_F0" by (simp add: detect_in_band)
    then obtain mapped where "nearest_fret_from_freq (Some freq) = Inr (Some mapped)"
      using in_band_mapped [of freq] by blast
    with d Some event_step_total [of st mapped freq now r1 r2]
    show ?thesis by (simp add: trainer_step_def)
  qed
qed

lemma trainer_step_short_chunk:
  "length chunk < 46 \<Longrightarrow> trainer_step st chunk now r1 r2 = Inr (st, [])"
  by (simp add: trainer_step_def detect_short)

end
